theory Spec2Isabelle
  imports Main "HOL-Library.AList" "HOL-Library.Sublist"
begin

section \<open>Python values\<close>

text \<open>
  The values that flow through the annotator: identifiers, column labels, cells, keyword
  arguments and the user name. Python's \<open>bool\<close> is a subtype of \<open>int\<close>
  (\<open>True == 1\<close>), so \<open>True\<close> and \<open>False\<close> are \<open>PInt 1\<close> and \<open>PInt 0\<close>; with that,
  equality of these values in HOL is Python's \<open>==\<close>, except that a \<open>PDict\<close> keeps
  its insertion order (dicts are never compared here).
\<close>

datatype pyval =
    PNone
  | PInt int
  | PStr string
  | PList "pyval list"
  | PTuple "pyval list"
  | PDict "(pyval \<times> pyval) list"

text \<open>Truth value testing, as \<open>if user:\<close>, \<open>if id_col:\<close> and \<open>if not item_cols:\<close> use it.\<close>

fun truthy :: "pyval \<Rightarrow> bool" where
  "truthy PNone = False"
| "truthy (PInt n) = (n \<noteq> 0)"
| "truthy (PStr s) = (s \<noteq> [])"
| "truthy (PList xs) = (xs \<noteq> [])"
| "truthy (PTuple xs) = (xs \<noteq> [])"
| "truthy (PDict kvs) = (kvs \<noteq> [])"

text \<open>
  \<open>hash(x)\<close> succeeds: lists and dicts are unhashable, a tuple is hashable when its
  elements are. Item identifiers are hashable values.
\<close>

fun hashable :: "pyval \<Rightarrow> bool" where
  "hashable PNone = True"
| "hashable (PInt n) = True"
| "hashable (PStr s) = True"
| "hashable (PList xs) = False"
| "hashable (PTuple xs) = list_all hashable xs"
| "hashable (PDict kvs) = False"

text \<open>A number or a string: the plain row labels of a table.\<close>

fun plain_label :: "pyval \<Rightarrow> bool" where
  "plain_label (PInt n) = True"
| "plain_label (PStr s) = True"
| "plain_label v = False"

datatype error = KeyError | TypeError | AttributeError | OtherError string

text \<open>Keyword arguments \<open>**kwargs\<close>: a dict from names to values, in insertion order.\<close>

type_synonym kwargs = "(string \<times> pyval) list"

text \<open>\<open>d.update(other)\<close>: each key of \<open>other\<close> overwrites or is appended.\<close>

definition dict_update :: "kwargs \<Rightarrow> kwargs \<Rightarrow> kwargs" where
  "dict_update d other = fold (\<lambda>(k, v) m. AList.update k v m) other d"

text \<open>The value bound to a keyword parameter whose default is \<open>None\<close>.\<close>

definition kwarg :: "kwargs \<Rightarrow> string \<Rightarrow> pyval" where
  "kwarg kw k = (case map_of kw k of None \<Rightarrow> PNone | Some v \<Rightarrow> v)"

section \<open>The tabular structure\<close>

text \<open>
  A pandas DataFrame, as far as the code uses it: the column labels, the row labels (the
  index) and one row of cells per row label, one cell per column.
\<close>

record frame =
  columns :: "pyval list"
  index :: "pyval list"
  cells :: "pyval list list"

text \<open>The cell of a row under a column label (the first column of that label).\<close>

definition cell :: "pyval list \<Rightarrow> pyval list \<Rightarrow> pyval \<Rightarrow> pyval" where
  "cell cols row c = (case map_of (zip cols row) c of None \<Rightarrow> PNone | Some v \<Rightarrow> v)"

text \<open>
  \<open>df.set_index(keys)\<close>: the key columns leave the table and become the row labels; a
  key that is no column raises KeyError. One key gives its cells as labels, several keys
  give tuples. The only call site passes at least one key.
\<close>

definition set_index :: "frame \<Rightarrow> pyval list \<Rightarrow> error + frame" where
  "set_index df keys =
     (if \<not> set keys \<subseteq> set (columns df) then Inl KeyError
      else
        let rest = filter (\<lambda>c. c \<notin> set keys) (columns df) in
        Inr \<lparr>columns = rest,
             index = map (\<lambda>row. case keys of
                                   [k] \<Rightarrow> cell (columns df) row k
                                 | _ \<Rightarrow> PTuple (map (cell (columns df) row) keys))
                         (cells df),
             cells = map (\<lambda>row. map (cell (columns df) row) rest) (cells df)\<rparr>)"

text \<open>The rows that carry one row label, restricted to the columns asked for.\<close>

definition rows_of :: "frame \<Rightarrow> pyval list \<Rightarrow> pyval \<Rightarrow> pyval list list" where
  "rows_of df cols l =
     map (\<lambda>(l', row). map (cell (columns df) row) cols)
         (filter (\<lambda>(l', row). l' = l) (zip (index df) (cells df)))"

text \<open>
  \<open>df.loc[key, cols]\<close> with a list of column labels. A key that is a list selects
  the rows of each label in the list, and so does a tuple unless the tuple is itself a
  row label; any other key is one row label. A label that is not in the index, or a
  column label that is no column, raises KeyError; a dict is refused as a key
  (TypeError).
\<close>

definition loc :: "frame \<Rightarrow> pyval \<Rightarrow> pyval list \<Rightarrow> error + pyval list list" where
  "loc df key cols =
     (let labels = (case key of
                      PList ks \<Rightarrow> ks
                    | PTuple ks \<Rightarrow> if key \<in> set (index df) then [key] else ks
                    | k \<Rightarrow> [k])
      in case key of
           PDict kvs \<Rightarrow> Inl TypeError
         | k \<Rightarrow>
             if \<not> set labels \<subseteq> set (index df) then Inl KeyError
             else if \<not> set cols \<subseteq> set (columns df) then Inl KeyError
             else Inr (concat (map (rows_of df cols) labels)))"

section \<open>Data adapters (data/data.py)\<close>

text \<open>What \<open>load_data\<close> can be handed: a DataFrame, or any other Python value.\<close>

datatype pyobj = Obj pyval | Frame frame

text \<open>
  The view objects that \<open>dict.keys()\<close> and \<open>dict.values()\<close> return. A view
  shows the dict it was taken from, here the dict that the caller passed; nothing in the
  code changes that dict, so a view is modelled by what it shows. A view is not a list:
  pickle refuses it.
\<close>

datatype view = dict_keys "pyval list" | dict_values "pyval list"

fun shown :: "view \<Rightarrow> pyval list" where
  "shown (dict_keys ks) = ks"
| "shown (dict_values vs) = vs"

text \<open>
  The three adapter classes with the attributes their \<open>__init__\<close> sets:
  \<open>Data_List\<close> and \<open>Data_Dict\<close> have \<open>data\<close>, \<open>ids\<close>, \<open>items\<close>;
  \<open>Data_DataFrame\<close> has \<open>data\<close>, \<open>item_cols\<close>, \<open>ids\<close>.
\<close>

datatype data =
    Data_List pyobj "pyval list" pyobj
  | Data_Dict pyobj view view
  | Data_DataFrame frame "pyval list" "pyval list"

text \<open>The ids of an adapter, as iterating over \<open>data.ids\<close> yields them.\<close>

fun ids_of :: "data \<Rightarrow> pyval list" where
  "ids_of (Data_List d is its) = is"
| "ids_of (Data_Dict d is its) = shown is"
| "ids_of (Data_DataFrame d cols is) = is"

text \<open>Whether \<open>data.ids\<close> is a dict view rather than a list or an Index.\<close>

fun ids_are_view :: "data \<Rightarrow> bool" where
  "ids_are_view (Data_Dict d is its) = True"
| "ids_are_view d = False"

text \<open>\<open>len(data)\<close>; a value without a length raises TypeError.\<close>

fun py_len :: "pyobj \<Rightarrow> error + nat" where
  "py_len (Obj (PStr s)) = Inr (length s)"
| "py_len (Obj (PList xs)) = Inr (length xs)"
| "py_len (Obj (PTuple xs)) = Inr (length xs)"
| "py_len (Obj (PDict kvs)) = Inr (length kvs)"
| "py_len (Frame df) = Inr (length (index df))"
| "py_len (Obj PNone) = Inl TypeError"
| "py_len (Obj (PInt n)) = Inl TypeError"

text \<open>\<open>Data_List.__init__\<close>: the ids are \<open>list(range(0, len(data)))\<close>.\<close>

definition Data_List_init :: "pyobj \<Rightarrow> error + data" where
  "Data_List_init d =
     (case py_len d of
        Inl e \<Rightarrow> Inl e
      | Inr n \<Rightarrow> Inr (Data_List d (map (\<lambda>k. PInt (int k)) [0..<n]) d))"

text \<open>
  \<open>Data_Dict.__init__\<close>: the ids are \<open>data.keys()\<close>, the items \<open>data.values()\<close>.
  A DataFrame has \<open>keys()\<close> but its \<open>values\<close> is not callable (TypeError); the
  other values have no \<open>keys\<close> (AttributeError).
\<close>

fun Data_Dict_init :: "pyobj \<Rightarrow> error + data" where
  "Data_Dict_init (Obj (PDict kvs)) =
     Inr (Data_Dict (Obj (PDict kvs)) (dict_keys (map fst kvs)) (dict_values (map snd kvs)))"
| "Data_Dict_init (Frame df) = Inl TypeError"
| "Data_Dict_init (Obj v) = Inl AttributeError"

text \<open>
  \<open>Data_DataFrame.__init__(data, item_cols=None, id_col=None)\<close>. The default for
  \<open>item_cols\<close> is read from the argument \<open>data\<close>, not from \<open>self.data\<close> after
  \<open>set_index\<close>.
\<close>

definition Data_DataFrame_init :: "frame \<Rightarrow> pyval \<Rightarrow> pyval \<Rightarrow> error + data" where
  "Data_DataFrame_init d item_cols id_col =
     (case (if truthy id_col
            then set_index d (case id_col of PList ks \<Rightarrow> ks | k \<Rightarrow> [k])
            else Inr d) of
        Inl e \<Rightarrow> Inl e
      | Inr self_data \<Rightarrow>
          let cols = (if \<not> truthy item_cols then columns d
                      else (case item_cols of PList cs \<Rightarrow> cs | c \<Rightarrow> [c]))
          in Inr (Data_DataFrame self_data cols (index self_data)))"

text \<open>
  \<open>Data_DataFrame.__getitem__\<close>: \<open>self.data.loc[id, self.item_cols]\<close>. The other
  two classes define no \<open>__getitem__\<close>.
\<close>

fun getitem :: "data \<Rightarrow> pyval \<Rightarrow> error + pyval list list" where
  "getitem (Data_DataFrame d cols is) ident = loc d ident cols"
| "getitem (Data_List d is its) ident = Inl TypeError"
| "getitem (Data_Dict d is its) ident = Inl TypeError"

subsection \<open>The registry and \<open>load_data\<close>\<close>

datatype kind = Sequence | Mapping | DataFrame

datatype cls = Data_List_cls | Data_Dict_cls | Data_DataFrame_cls

fun kind_of :: "cls \<Rightarrow> kind" where
  "kind_of Data_List_cls = Sequence"
| "kind_of Data_Dict_cls = Mapping"
| "kind_of Data_DataFrame_cls = DataFrame"

text \<open>
  \<open>isinstance(data, cls.kind)\<close>. \<open>str\<close>, \<open>list\<close> and \<open>tuple\<close> are
  \<open>collections.abc.Sequence\<close>s, a \<open>dict\<close> is a \<open>Mapping\<close>; a DataFrame is
  registered with neither abstract class.
\<close>

fun isinstance :: "pyobj \<Rightarrow> kind \<Rightarrow> bool" where
  "isinstance (Obj (PStr s)) Sequence = True"
| "isinstance (Obj (PList xs)) Sequence = True"
| "isinstance (Obj (PTuple xs)) Sequence = True"
| "isinstance (Obj (PDict kvs)) Mapping = True"
| "isinstance (Frame df) DataFrame = True"
| "isinstance d k = False"

text \<open>
  \<open>register(cls)\<close>: \<open>registry[cls.kind] = cls\<close>. The registry is a dict, so it keeps
  the order in which its keys were first inserted.
\<close>

definition register :: "cls \<Rightarrow> (kind \<times> cls) list \<Rightarrow> (kind \<times> cls) list" where
  "register c reg = AList.update (kind_of c) c reg"

text \<open>The three \<open>@register\<close> decorators, in the order of the module.\<close>

definition registry :: "(kind \<times> cls) list" where
  "registry = register Data_DataFrame_cls (register Data_Dict_cls (register Data_List_cls []))"

text \<open>
  \<open>cls(data, **kwargs)\<close>: a keyword that the constructor does not declare raises
  TypeError. \<open>load_data\<close> constructs \<open>Data_DataFrame\<close> for DataFrames only, and only
  that case of the constructor is modelled; AttributeError (of \<open>data.columns\<close> or
  \<open>set_index\<close>) stands for the others.
\<close>

fun new :: "cls \<Rightarrow> pyobj \<Rightarrow> kwargs \<Rightarrow> error + data" where
  "new Data_List_cls d kw = (if kw \<noteq> [] then Inl TypeError else Data_List_init d)"
| "new Data_Dict_cls d kw = (if kw \<noteq> [] then Inl TypeError else Data_Dict_init d)"
| "new Data_DataFrame_cls d kw =
     (if \<not> set (map fst kw) \<subseteq> {''item_cols'', ''id_col''} then Inl TypeError
      else (case d of
              Frame df \<Rightarrow> Data_DataFrame_init df (kwarg kw ''item_cols'') (kwarg kw ''id_col'')
            | Obj v \<Rightarrow> Inl AttributeError))"

text \<open>
  The loop of \<open>load_data\<close> over \<open>registry.values()\<close>; falling off the end of the
  loop returns \<open>None\<close>.
\<close>

fun load_data_loop :: "cls list \<Rightarrow> pyobj \<Rightarrow> kwargs \<Rightarrow> error + data option" where
  "load_data_loop [] d kw = Inr None"
| "load_data_loop (c # cs) d kw =
     (if isinstance d (kind_of c) then map_sum id Some (new c d kw)
      else load_data_loop cs d kw)"

definition load_data :: "pyobj \<Rightarrow> kwargs \<Rightarrow> error + data option" where
  "load_data d kw = load_data_loop (map snd registry) d kw"

text \<open>
  The order of the checks: \<open>checked_before a b cs\<close> holds when the loop over \<open>cs\<close>
  tests class \<open>a\<close> at an earlier iteration than class \<open>b\<close>.
\<close>

fun checked_before :: "cls \<Rightarrow> cls \<Rightarrow> cls list \<Rightarrow> bool" where
  "checked_before a b [] = False"
| "checked_before a b (c # cs) =
     (if c = a then b \<in> set cs
      else if c = b then False
      else checked_before a b cs)"

section \<open>The annotator (humannotator.py)\<close>

text \<open>
  Modelled from the spec: the class \<open>Annotations\<close> (core/annotations.py) is not among
  the sources. It holds the tasks and the annotation table \<open>data\<close>, a table keyed by item
  identifier with one column per task; the annotator reads its \<open>data.index\<close>.
\<close>

record 't annotations =
  tasks :: "'t list"
  data :: frame

text \<open>
  The attributes of an \<open>Annotator\<close>. \<open>private_data\<close> is \<open>_data\<close>; \<open>ids\<close> and \<open>i\<close> do
  not exist before the first run (\<open>None\<close> here). The attribute \<open>ids\<close> is kept in two
  parts: \<open>ids\<close> is what iterating over it yields, and \<open>ids_is_view\<close> tells that the
  object is the \<open>dict_keys\<close> view of a \<open>Data_Dict\<close> and not a list or an Index.
\<close>

record 't annotator =
  kwargs :: kwargs
  user :: pyval
  name :: string
  annotations :: "'t annotations"
  private_data :: "data option"
  save_data :: bool
  ids :: "pyval list option"
  ids_is_view :: bool
  i :: "nat option"

text \<open>
  Modelled from the spec: the class \<open>Interface\<close> (interface.py) is not among the
  sources. It is built from the annotator and the keyword arguments; called on an id it
  presents the item, commits the answers to the annotations, and is afterwards active,
  inactive (the reviewer stopped) or has raised.
\<close>

datatype outcome = Active | Inactive | Raised error

type_synonym 't interface = "'t annotator \<Rightarrow> pyval \<Rightarrow> 't annotations \<times> outcome"

text \<open>
  What one call of the annotator leaves behind: the annotator itself, the ids handed to
  the interface in order, what the \<open>data\<close> property printed, and the exception that
  ended the call, if any. The call returns \<open>None\<close> on every path that returns.
\<close>

record 't run =
  session :: "'t annotator"
  presented :: "pyval list"
  printed :: "string list"
  raised :: "error option"

definition no_data_message :: string where
  "no_data_message =
     ''NO DATA LOADED'' @ [CHR 0x0A] @ ''=============='' @ [CHR 0x0A] @
     ''Load the data first by assigning it to the `data` property of the annotator.''"

text \<open>The property \<open>data\<close>: it prints when no data is loaded and returns \<open>_data\<close>.\<close>

definition get_data :: "'t annotator \<Rightarrow> string list \<times> data option" where
  "get_data self = (if private_data self = None then [no_data_message] else [], private_data self)"

text \<open>
  The setter of \<open>data\<close>: \<open>None\<close>, a \<open>Data\<close> object (\<open>Inl\<close>), or anything else
  (\<open>Inr\<close>), which goes through \<open>load_data\<close> with the annotator's keyword arguments.
\<close>

definition set_data :: "'t annotator \<Rightarrow> (data + pyobj) option \<Rightarrow> error + 't annotator" where
  "set_data self d =
     (case d of
        None \<Rightarrow> Inr (self\<lparr>private_data := None\<rparr>)
      | Some (Inr raw) \<Rightarrow>
          (case load_data raw (kwargs self) of
             Inl e \<Rightarrow> Inl e
           | Inr loaded \<Rightarrow> Inr (self\<lparr>private_data := loaded\<rparr>))
      | Some (Inl adapter) \<Rightarrow> Inr (self\<lparr>private_data := Some adapter\<rparr>))"

text \<open>
  The loop \<open>for i, id in enumerate(self.ids)\<close>: set \<open>self.i\<close>, call the interface,
  stop when it is no longer active. \<open>seen\<close> collects the ids handed to the interface.
\<close>

fun loop :: "'t interface \<Rightarrow> 't annotator \<Rightarrow> nat \<Rightarrow> pyval list \<Rightarrow> pyval list \<Rightarrow> 't run" where
  "loop interface self k [] seen =
     \<lparr>session = self, presented = seen, printed = [], raised = None\<rparr>"
| "loop interface self k (x # xs) seen =
     (let self1 = self\<lparr>i := Some k\<rparr> in
      case interface self1 x of
        (anns, Raised e) \<Rightarrow>
          \<lparr>session = self1\<lparr>annotations := anns\<rparr>, presented = seen @ [x],
           printed = [], raised = Some e\<rparr>
      | (anns, Inactive) \<Rightarrow>
          \<lparr>session = self1\<lparr>annotations := anns\<rparr>, presented = seen @ [x],
           printed = [], raised = None\<rparr>
      | (anns, Active) \<Rightarrow>
          loop interface (self1\<lparr>annotations := anns\<rparr>) (Suc k) xs (seen @ [x]))"

text \<open>
  \<open>Annotator.__call__(ids=None, user=None, redo=False, **kwargs)\<close>. The ids are
  hashable values, the identifiers of the data model; the membership test of the filter
  hashes an id and raises TypeError on a list or a dict, which is outside this model.
  With \<open>redo\<close> the attribute \<open>ids\<close> is the very object \<open>ids\<close>, for a
  \<open>Data_Dict\<close> and no argument its view of the keys; without, it is a new list.
\<close>

definition call ::
  "(kwargs \<Rightarrow> 't interface) \<Rightarrow> 't annotator \<Rightarrow> pyval list option \<Rightarrow> pyval \<Rightarrow> bool \<Rightarrow> kwargs
     \<Rightarrow> 't run" where
  "call Interface self ids_arg user_arg redo kw =
     (let self1 = (if truthy user_arg then self\<lparr>user := user_arg\<rparr> else self) in
      case get_data self1 of
        (out, None) \<Rightarrow> \<lparr>session = self1, presented = [], printed = out, raised = None\<rparr>
      | (out, Some d) \<Rightarrow>
          let kw1 = dict_update kw (kwargs self1);
              ids1 = (case ids_arg of None \<Rightarrow> ids_of d | Some l \<Rightarrow> l);
              work = (if \<not> redo
                      then filter (\<lambda>x. x \<notin> set (index (data (annotations self1)))) ids1
                      else ids1);
              self2 = self1\<lparr>ids := Some work,
                            ids_is_view := (redo \<and> ids_arg = None \<and> ids_are_view d)\<rparr>
          in loop (Interface kw1) self2 0 work [])"

text \<open>
  The annotator when the loop of a call begins: the user argument stored if truthy, the
  work list stored.
\<close>

definition at_start :: "'t annotator \<Rightarrow> pyval \<Rightarrow> pyval list \<Rightarrow> bool \<Rightarrow> 't annotator" where
  "at_start self user_arg work is_view =
     (if truthy user_arg then self\<lparr>user := user_arg\<rparr> else self)
       \<lparr>ids := Some work, ids_is_view := is_view\<rparr>"

text \<open>
  The annotator as the interface finds it at item number \<open>m\<close> of the work list
  \<open>xs\<close>, when the loop has gone through the \<open>m\<close> items before it.
\<close>

definition at_item :: "'t interface \<Rightarrow> 't annotator \<Rightarrow> pyval list \<Rightarrow> nat \<Rightarrow> 't annotator" where
  "at_item interface self xs m = (session (loop interface self 0 (take m xs) []))\<lparr>i := Some m\<rparr>"

subsection \<open>Persistence\<close>

text \<open>
  The pickled state: a copy of the instance \<open>__dict__\<close>. A key that may be missing is an
  option: \<open>_data\<close> is deleted by \<open>__getstate__\<close> when \<open>save_data\<close> is off, and
  \<open>ids\<close> and \<open>i\<close> are there once the annotator has run (\<open>st_ids_is_view\<close> goes with
  \<open>st_ids\<close> as \<open>ids_is_view\<close> goes with \<open>ids\<close>).
\<close>

record 't state =
  st_kwargs :: kwargs
  st_user :: pyval
  st_name :: string
  st_annotations :: "'t annotations"
  st_data :: "data option option"
  st_save_data :: bool
  st_ids :: "pyval list option"
  st_ids_is_view :: bool
  st_i :: "nat option"

definition getstate :: "'t annotator \<Rightarrow> 't state" where
  "getstate self =
     (let state = \<lparr>st_kwargs = kwargs self, st_user = user self, st_name = name self,
                   st_annotations = annotations self, st_data = Some (private_data self),
                   st_save_data = save_data self, st_ids = ids self,
                   st_ids_is_view = ids_is_view self, st_i = i self\<rparr>
      in if \<not> save_data self then state\<lparr>st_data := None\<rparr> else state)"

definition setstate :: "'t state \<Rightarrow> 't annotator" where
  "setstate state =
     (let state1 = (if st_data state = None then state\<lparr>st_data := Some None\<rparr> else state)
      in \<lparr>kwargs = st_kwargs state1, user = st_user state1, name = st_name state1,
          annotations = st_annotations state1,
          private_data = (case st_data state1 of None \<Rightarrow> None | Some d \<Rightarrow> d),
          save_data = st_save_data state1, ids = st_ids state1,
          ids_is_view = st_ids_is_view state1, i = st_i state1\<rparr>)"

text \<open>
  What pickle can write: every value of the state but a dict view. A view is in the
  state when the data is a \<open>Data_Dict\<close> (its \<open>ids\<close> and \<open>items\<close>) and is saved
  with the annotator, or when \<open>ids\<close> is the view of the keys. The tasks, the tables and
  the other values are taken to pickle.
\<close>

definition picklable :: "'t state \<Rightarrow> bool" where
  "picklable state =
     ((case st_data state of
         Some (Some (Data_Dict d is its)) \<Rightarrow> False
       | _ \<Rightarrow> True) \<and>
      \<not> st_ids_is_view state)"

text \<open>
  A file holds a pickled state, or what is left when \<open>pickle.dump\<close> raised after
  \<open>open(filename, 'wb')\<close> had created or emptied the file.
\<close>

datatype 't pickle_file = Pickled "'t state" | Truncated

type_synonym 't files = "string \<rightharpoonup> 't pickle_file"

text \<open>
  \<open>save\<close>: the exception raised, if any, and the files afterwards. \<open>load\<close>:
  opening a file that does not exist raises, and so does unpickling a file that holds no
  complete pickle (EOFError or UnpicklingError).
\<close>

definition save :: "'t annotator \<Rightarrow> string \<Rightarrow> 't files \<Rightarrow> error option \<times> 't files" where
  "save self filename fs =
     (let state = getstate self in
      if picklable state then (None, fs(filename \<mapsto> Pickled state))
      else (Some TypeError, fs(filename \<mapsto> Truncated)))"

definition load :: "string \<Rightarrow> 't files \<Rightarrow> error + 't annotator" where
  "load filename fs =
     (case fs filename of
        None \<Rightarrow> Inl (OtherError ''FileNotFoundError'')
      | Some Truncated \<Rightarrow> Inl (OtherError ''EOFError'')
      | Some (Pickled state) \<Rightarrow> Inr (setstate state))"

section \<open>Example sessions\<close>

text \<open>
  A sequential adapter over three items, a ledger that already holds the ids 0 and 1
  (and 5, which the adapter does not have), one task.
\<close>

definition three_items :: data where
  "three_items =
     Data_List (Obj (PList [PStr ''a'', PStr ''b'', PStr ''c'']))
               [PInt 0, PInt 1, PInt 2]
               (Obj (PList [PStr ''a'', PStr ''b'', PStr ''c'']))"

definition ledger_015 :: "unit annotations" where
  "ledger_015 =
     \<lparr>tasks = [()],
      data = \<lparr>columns = [PStr ''flag''], index = [PInt 0, PInt 1, PInt 5],
              cells = [[PInt 1], [PInt 0], [PInt 1]]\<rparr>\<rparr>"

definition example_session :: "unit annotator" where
  "example_session =
     \<lparr>kwargs = [], user = PNone, name = ''HUMANNOTATOR'', annotations = ledger_015,
      private_data = Some three_items, save_data = False, ids = None, ids_is_view = False,
      i = None\<rparr>"

text \<open>
  A keyed adapter over \<open>{"x": 1, "y": 2}\<close>, as \<open>load_data\<close> builds it, in a session
  with an empty ledger that stores the data with the annotator.
\<close>

definition two_items :: data where
  "two_items =
     Data_Dict (Obj (PDict [(PStr ''x'', PInt 1), (PStr ''y'', PInt 2)]))
               (dict_keys [PStr ''x'', PStr ''y''])
               (dict_values [PInt 1, PInt 2])"

definition dict_session :: "unit annotator" where
  "dict_session =
     \<lparr>kwargs = [], user = PNone, name = ''HUMANNOTATOR'',
      annotations = \<lparr>tasks = [()], data = \<lparr>columns = [PStr ''flag''], index = [], cells = []\<rparr>\<rparr>,
      private_data = Some two_items, save_data = True, ids = None, ids_is_view = False,
      i = None\<rparr>"

text \<open>An interface that commits an answer for every id and stays active.\<close>

definition answer_all :: "kwargs \<Rightarrow> unit interface" where
  "answer_all kw self x =
     (let t = data (annotations self) in
      ((annotations self)\<lparr>data := t\<lparr>index := index t @ [x], cells := cells t @ [[PInt 1]]\<rparr>\<rparr>,
       Active))"

text \<open>An interface whose reviewer stops at the first item.\<close>

definition stop_at_once :: "kwargs \<Rightarrow> unit interface" where
  "stop_at_once kw self x = (annotations self, Inactive)"

text \<open>An interface that raises KeyError on an id that the attached data does not have.\<close>

definition strict_lookup :: "kwargs \<Rightarrow> unit interface" where
  "strict_lookup kw self x =
     (annotations self,
      case private_data self of
        None \<Rightarrow> Raised KeyError
      | Some d \<Rightarrow> if x \<in> set (ids_of d) then Active else Raised KeyError)"

text \<open>A table of two news items.\<close>

definition news :: frame where
  "news =
     \<lparr>columns = [PStr ''news_id'', PStr ''title''], index = [PInt 0, PInt 1],
      cells = [[PInt 10, PStr ''x''], [PInt 11, PStr ''y'']]\<rparr>"

section \<open>Properties\<close>

lemma registry_values:
  "map snd registry = [Data_List_cls, Data_Dict_cls, Data_DataFrame_cls]"
  by (simp add: registry_def register_def)

lemma loop_ids: "ids (session (loop f s k xs seen)) = ids s"
  by (induction xs arbitrary: s k seen) (auto split: prod.splits outcome.splits simp: Let_def)

lemma loop_user: "user (session (loop f s k xs seen)) = user s"
  by (induction xs arbitrary: s k seen) (auto split: prod.splits outcome.splits simp: Let_def)

lemma loop_presented: "\<exists>n. presented (loop f s k xs seen) = seen @ take n xs"
proof (induction xs arbitrary: s k seen)
  case Nil
  then show ?case by simp
next
  case (Cons x xs)
  obtain anns out where fx: "f (s\<lparr>i := Some k\<rparr>) x = (anns, out)"
    by (cases "f (s\<lparr>i := Some k\<rparr>) x")
  show ?case
  proof (cases out)
    case Active
    from Cons.IH [of "s\<lparr>i := Some k, annotations := anns\<rparr>" "Suc k" "seen @ [x]"]
    obtain n where
      "presented (loop f (s\<lparr>i := Some k, annotations := anns\<rparr>) (Suc k) xs (seen @ [x]))
         = (seen @ [x]) @ take n xs"
      by blast
    then have "presented (loop f s k (x # xs) seen) = seen @ take (Suc n) (x # xs)"
      using fx Active by simp
    then show ?thesis by blast
  next
    case Inactive
    then have "presented (loop f s k (x # xs) seen) = seen @ take 1 (x # xs)"
      using fx by simp
    then show ?thesis by blast
  next
    case (Raised e)
    then have "presented (loop f s k (x # xs) seen) = seen @ take 1 (x # xs)"
      using fx by simp
    then show ?thesis by blast
  qed
qed

lemma loop_presented_prefix: "prefix (presented (loop f s k xs [])) xs"
proof -
  obtain n where "presented (loop f s k xs []) = take n xs"
    using loop_presented [of f s k xs "[]"] by auto
  then show ?thesis by (simp add: take_is_prefix)
qed

lemma loop_all_active:
  "(\<And>s' y. snd (f s' y) = Active) \<Longrightarrow> presented (loop f s k xs seen) = seen @ xs"
proof (induction xs arbitrary: s k seen)
  case Nil
  then show ?case by simp
next
  case (Cons x xs)
  obtain anns out where fx: "f (s\<lparr>i := Some k\<rparr>) x = (anns, out)"
    by (cases "f (s\<lparr>i := Some k\<rparr>) x")
  with Cons.prems [of "s\<lparr>i := Some k\<rparr>" x] have "out = Active" by simp
  with fx Cons.IH [OF Cons.prems] show ?case by simp
qed

lemma loop_raised:
  "raised (loop f s k xs seen) = Some e \<Longrightarrow> \<exists>s' y. y \<in> set xs \<and> snd (f s' y) = Raised e"
proof (induction xs arbitrary: s k seen)
  case Nil
  then show ?case by simp
next
  case (Cons x xs)
  obtain anns out where fx: "f (s\<lparr>i := Some k\<rparr>) x = (anns, out)"
    by (cases "f (s\<lparr>i := Some k\<rparr>) x")
  show ?case
  proof (cases out)
    case Active
    with fx Cons.prems
    have "raised (loop f (s\<lparr>i := Some k, annotations := anns\<rparr>) (Suc k) xs (seen @ [x])) = Some e"
      by simp
    from Cons.IH [OF this] show ?thesis by auto
  next
    case Inactive
    with fx Cons.prems show ?thesis by simp
  next
    case (Raised e')
    with fx Cons.prems have "e' = e" by simp
    with fx Raised have "snd (f (s\<lparr>i := Some k\<rparr>) x) = Raised e" by simp
    then show ?thesis by auto
  qed
qed

lemma loop_session_seen: "session (loop f s k xs seen) = session (loop f s k xs seen')"
  by (induction xs arbitrary: s k seen seen')
    (auto split: prod.splits outcome.splits simp: Let_def)

text \<open>
  The loop reaches item number \<open>n\<close> exactly when the interface was active after each
  item before it.
\<close>

lemma loop_reaches:
  "n < length xs \<Longrightarrow>
   (length seen + n < length (presented (loop f s k xs seen))) =
   (\<forall>m<n. snd (f ((session (loop f s k (take m xs) []))\<lparr>i := Some (k + m)\<rparr>) (xs ! m)) = Active)"
proof (induction xs arbitrary: s k seen n)
  case Nil
  then show ?case by simp
next
  case (Cons x xs)
  obtain anns out where fx: "f (s\<lparr>i := Some k\<rparr>) x = (anns, out)"
    by (cases "f (s\<lparr>i := Some k\<rparr>) x")
  show ?case
  proof (cases n)
    case 0
    obtain j where "presented (loop f s k (x # xs) seen) = seen @ take j (x # xs)"
      using loop_presented [of f s k "x # xs" seen] by blast
    moreover have "presented (loop f s k (x # xs) seen) \<noteq> seen"
    proof (cases out)
      case Active
      obtain j' where
        "presented (loop f (s\<lparr>i := Some k, annotations := anns\<rparr>) (Suc k) xs (seen @ [x]))
           = (seen @ [x]) @ take j' xs"
        using loop_presented
          [of f "s\<lparr>i := Some k, annotations := anns\<rparr>" "Suc k" xs "seen @ [x]"]
        by blast
      with fx Active show ?thesis by simp
    qed (use fx in simp_all)
    ultimately have "length seen < length (presented (loop f s k (x # xs) seen))"
      by (cases j) auto
    with 0 show ?thesis by simp
  next
    case (Suc n')
    with Cons.prems have n': "n' < length xs" by simp
    show ?thesis
    proof (cases "out = Active")
      case False
      then have "presented (loop f s k (x # xs) seen) = seen @ [x]"
        using fx by (cases out) simp_all
      moreover have "snd (f ((session (loop f s k (take 0 (x # xs)) []))\<lparr>i := Some (k + 0)\<rparr>)
                            ((x # xs) ! 0)) \<noteq> Active"
        using fx False by simp
      then have "\<not> (\<forall>m<n. snd (f ((session (loop f s k (take m (x # xs)) []))
                                        \<lparr>i := Some (k + m)\<rparr>) ((x # xs) ! m)) = Active)"
        using Suc by blast
      ultimately show ?thesis using Suc by simp
    next
      case True
      let ?s' = "s\<lparr>i := Some k, annotations := anns\<rparr>"
      have step: "loop f s k (x # ys) sn = loop f ?s' (Suc k) ys (sn @ [x])" for ys sn
        using fx True by simp
      have IH: "(length (seen @ [x]) + n' < length (presented (loop f ?s' (Suc k) xs (seen @ [x])))) =
        (\<forall>m<n'. snd (f ((session (loop f ?s' (Suc k) (take m xs) []))\<lparr>i := Some (Suc k + m)\<rparr>)
                        (xs ! m)) = Active)"
        by (rule Cons.IH [OF n'])
      have sess: "session (loop f s k (take (Suc m) (x # xs)) []) =
          session (loop f ?s' (Suc k) (take m xs) [])" for m
        using step [of "take m xs" "[]"] loop_session_seen [of f ?s' "Suc k" "take m xs" "[x]" "[]"]
        by simp
      have "(\<forall>m<Suc n'. snd (f ((session (loop f s k (take m (x # xs)) []))\<lparr>i := Some (k + m)\<rparr>)
                               ((x # xs) ! m)) = Active) =
            (\<forall>m<n'. snd (f ((session (loop f ?s' (Suc k) (take m xs) []))\<lparr>i := Some (Suc k + m)\<rparr>)
                            (xs ! m)) = Active)"
        (is "?L = ?R")
      proof
        assume L: ?L
        show ?R
        proof (intro allI impI)
          fix m assume "m < n'"
          then have "Suc m < Suc n'" by simp
          from L [rule_format, OF this] show
            "snd (f ((session (loop f ?s' (Suc k) (take m xs) []))\<lparr>i := Some (Suc k + m)\<rparr>)
                    (xs ! m)) = Active"
            by (simp only: sess nth_Cons_Suc add_Suc_right add_Suc)
        qed
      next
        assume R: ?R
        show ?L
        proof (intro allI impI)
          fix m assume m: "m < Suc n'"
          show "snd (f ((session (loop f s k (take m (x # xs)) []))\<lparr>i := Some (k + m)\<rparr>)
                       ((x # xs) ! m)) = Active"
          proof (cases m)
            case 0
            then show ?thesis using fx True by simp
          next
            case (Suc m')
            with m have "m' < n'" by simp
            from R [rule_format, OF this] show ?thesis
              unfolding Suc by (simp only: sess nth_Cons_Suc add_Suc_right add_Suc)
          qed
        qed
      qed
      with IH step [of xs seen] Suc show ?thesis by simp
    qed
  qed
qed

text \<open>With data attached, a call is the loop over the work list.\<close>

lemma call_with_data:
  assumes "private_data self = Some d"
  shows "call Interface self ids_arg user_arg redo kw =
    loop (Interface (dict_update kw (kwargs self)))
      (at_start self user_arg
         (if \<not> redo
          then filter (\<lambda>x. x \<notin> set (index (data (annotations self))))
                 (case ids_arg of None \<Rightarrow> ids_of d | Some l \<Rightarrow> l)
          else (case ids_arg of None \<Rightarrow> ids_of d | Some l \<Rightarrow> l))
         (redo \<and> ids_arg = None \<and> ids_are_view d))
      0
      (if \<not> redo
       then filter (\<lambda>x. x \<notin> set (index (data (annotations self))))
              (case ids_arg of None \<Rightarrow> ids_of d | Some l \<Rightarrow> l)
       else (case ids_arg of None \<Rightarrow> ids_of d | Some l \<Rightarrow> l))
      []"
  using assms by (simp add: call_def get_data_def at_start_def Let_def)

lemma call_without_data:
  assumes "private_data self = None"
  shows "call Interface self ids_arg user_arg redo kw =
    \<lparr>session = (if truthy user_arg then self\<lparr>user := user_arg\<rparr> else self),
     presented = [], printed = [no_data_message], raised = None\<rparr>"
  using assms by (simp add: call_def get_data_def Let_def)

lemma call_ids:
  assumes "private_data self = Some d"
  shows "ids (session (call Interface self ids_arg user_arg redo kw)) =
    Some (if \<not> redo
          then filter (\<lambda>x. x \<notin> set (index (data (annotations self))))
                 (case ids_arg of None \<Rightarrow> ids_of d | Some l \<Rightarrow> l)
          else (case ids_arg of None \<Rightarrow> ids_of d | Some l \<Rightarrow> l))"
  by (simp only: call_with_data [OF assms] loop_ids) (simp add: at_start_def)

lemma call_presented_prefix:
  assumes "private_data self = Some d"
  shows "prefix (presented (call Interface self ids_arg user_arg redo kw))
    (if \<not> redo
     then filter (\<lambda>x. x \<notin> set (index (data (annotations self))))
            (case ids_arg of None \<Rightarrow> ids_of d | Some l \<Rightarrow> l)
     else (case ids_arg of None \<Rightarrow> ids_of d | Some l \<Rightarrow> l))"
  by (simp only: call_with_data [OF assms] loop_presented_prefix)

lemmas example_defs =
  example_session_def ledger_015_def three_items_def answer_all_def stop_at_once_def
  strict_lookup_def dict_session_def two_items_def

subsection \<open>Skipping what is already annotated\<close>

text \<open>
  C1. An id that the annotation table already holds when the annotator is called with
  \<open>redo=False\<close> is never handed to the interface, and, when data is attached, it is
  not in the work list \<open>self.ids\<close> that the call computes.
\<close>

theorem annotated_ids_are_skipped:
  assumes "x \<in> set (index (data (annotations self)))"
  shows "x \<notin> set (presented (call Interface self ids_arg user_arg False kw)) \<and>
    (private_data self \<noteq> None \<longrightarrow>
       (\<exists>w. ids (session (call Interface self ids_arg user_arg False kw)) = Some w \<and>
            x \<notin> set w))"
proof (cases "private_data self")
  case None
  then show ?thesis by (simp add: call_without_data)
next
  case (Some d)
  let ?w = "filter (\<lambda>x. x \<notin> set (index (data (annotations self))))
              (case ids_arg of None \<Rightarrow> ids_of d | Some l \<Rightarrow> l)"
  have notin: "x \<notin> set ?w" using assms by simp
  have "prefix (presented (call Interface self ids_arg user_arg False kw)) ?w"
    using call_presented_prefix [OF Some, of Interface ids_arg user_arg False kw] by simp
  then have "set (presented (call Interface self ids_arg user_arg False kw)) \<subseteq> set ?w"
    by (rule set_mono_prefix)
  with notin have "x \<notin> set (presented (call Interface self ids_arg user_arg False kw))"
    by blast
  moreover have "ids (session (call Interface self ids_arg user_arg False kw)) = Some ?w"
    using call_ids [OF Some, of Interface ids_arg user_arg False kw] by simp
  ultimately show ?thesis using notin by blast
qed

theorem annotated_ids_are_skipped_witness:
  "PInt 0 \<in> set (index (data (annotations example_session))) \<and>
   PInt 0 \<notin> set (presented (call answer_all example_session None PNone False [])) \<and>
   private_data example_session \<noteq> None \<and>
   (\<exists>w. ids (session (call answer_all example_session None PNone False [])) = Some w \<and>
        PInt 0 \<notin> set w)"
proof -
  have h: "PInt 0 \<in> set (index (data (annotations example_session)))"
    by (simp add: example_defs)
  have d: "private_data example_session \<noteq> None"
    by (simp add: example_defs)
  from annotated_ids_are_skipped [OF h, of answer_all None PNone "[]"] h d
  show ?thesis by blast
qed

subsection \<open>Redo\<close>

text \<open>
  C2, as the claim states it, fails: with \<open>redo=True\<close> the loop still stops as soon as
  the interface is no longer active, so an id after that point is not presented. Here
  the reviewer stops at the first of three items and id 1 is never presented.
\<close>

theorem redo_presents_all_counterexample:
  "PInt 1 \<in> set (ids_of three_items) \<and>
   private_data example_session = Some three_items \<and>
   PInt 1 \<notin> set (presented (call stop_at_once example_session None PNone True []))"
  by (simp add: example_defs call_def get_data_def dict_update_def Let_def)

text \<open>
  C2, amended. With data attached and \<open>redo=True\<close> the work list is exactly the
  requested ids (the argument, or all ids of the data), whatever the annotation table
  holds. The ids are presented in that order until the interface is no longer active or
  raises: what is presented is a prefix of the requested ids, the id at position \<open>n\<close>
  is presented exactly when the interface was active after each of the ids before it, and
  so all of them are presented when the interface stays active.
\<close>

theorem redo_work_list_is_requested:
  assumes "private_data self = Some d"
  shows "ids (session (call Interface self ids_arg user_arg True kw)) =
      Some (case ids_arg of None \<Rightarrow> ids_of d | Some l \<Rightarrow> l) \<and>
    prefix (presented (call Interface self ids_arg user_arg True kw))
      (case ids_arg of None \<Rightarrow> ids_of d | Some l \<Rightarrow> l) \<and>
    ((\<forall>s y. snd (Interface (dict_update kw (kwargs self)) s y) = Active) \<longrightarrow>
       presented (call Interface self ids_arg user_arg True kw) =
         (case ids_arg of None \<Rightarrow> ids_of d | Some l \<Rightarrow> l)) \<and>
    (\<forall>n < length (case ids_arg of None \<Rightarrow> ids_of d | Some l \<Rightarrow> l).
       (n < length (presented (call Interface self ids_arg user_arg True kw))) =
       (\<forall>m<n.
          snd (Interface (dict_update kw (kwargs self))
                 (at_item (Interface (dict_update kw (kwargs self)))
                    (at_start self user_arg (case ids_arg of None \<Rightarrow> ids_of d | Some l \<Rightarrow> l)
                       (ids_arg = None \<and> ids_are_view d))
                    (case ids_arg of None \<Rightarrow> ids_of d | Some l \<Rightarrow> l) m)
                 ((case ids_arg of None \<Rightarrow> ids_of d | Some l \<Rightarrow> l) ! m)) = Active))"
proof -
  let ?req = "case ids_arg of None \<Rightarrow> ids_of d | Some l \<Rightarrow> l"
  let ?f = "Interface (dict_update kw (kwargs self))"
  let ?s0 = "at_start self user_arg ?req (ids_arg = None \<and> ids_are_view d)"
  have run: "call Interface self ids_arg user_arg True kw = loop ?f ?s0 0 ?req []"
    using call_with_data [OF assms, of Interface ids_arg user_arg True kw] by simp
  have "ids (session (call Interface self ids_arg user_arg True kw)) = Some ?req"
    using call_ids [OF assms, of Interface ids_arg user_arg True kw] by simp
  moreover have "prefix (presented (call Interface self ids_arg user_arg True kw)) ?req"
    using call_presented_prefix [OF assms, of Interface ids_arg user_arg True kw] by simp
  moreover have "presented (call Interface self ids_arg user_arg True kw) = ?req"
    if "\<forall>s y. snd (?f s y) = Active"
    using that by (simp add: run loop_all_active)
  moreover have "(n < length (presented (call Interface self ids_arg user_arg True kw))) =
       (\<forall>m<n. snd (?f (at_item ?f ?s0 ?req m) (?req ! m)) = Active)"
    if "n < length ?req" for n
    using loop_reaches [OF that, of "[]" ?f ?s0 0] by (simp add: run at_item_def)
  ultimately show ?thesis by blast
qed

theorem redo_work_list_is_requested_witness:
  "private_data example_session = Some three_items \<and>
   (\<forall>s y. snd (answer_all (dict_update [] (kwargs example_session)) s y) = Active) \<and>
   ids (session (call answer_all example_session None PNone True [])) =
     Some (case None of None \<Rightarrow> ids_of three_items | Some l \<Rightarrow> l) \<and>
   presented (call answer_all example_session None PNone True []) =
     (case None of None \<Rightarrow> ids_of three_items | Some l \<Rightarrow> l) \<and>
   \<not> 1 < length (presented (call stop_at_once example_session None PNone True []))"
proof -
  have d: "private_data example_session = Some three_items"
    by (simp add: example_defs)
  have a: "\<forall>s y. snd (answer_all (dict_update [] (kwargs example_session)) s y) = Active"
    by (simp add: answer_all_def Let_def)
  have len: "1 < length (case None of None \<Rightarrow> ids_of three_items | Some l \<Rightarrow> l)"
    by (simp add: three_items_def)
  have stop: "snd (stop_at_once kw s y) \<noteq> Active" for kw s y
    by (simp add: stop_at_once_def)
  note all = redo_work_list_is_requested [OF d, of answer_all None PNone "[]"]
  note one = redo_work_list_is_requested [OF d, of stop_at_once None PNone "[]"]
  have c1: "ids (session (call answer_all example_session None PNone True [])) =
     Some (case None of None \<Rightarrow> ids_of three_items | Some l \<Rightarrow> l)"
    by (rule all [THEN conjunct1])
  have c3: "presented (call answer_all example_session None PNone True []) =
     (case None of None \<Rightarrow> ids_of three_items | Some l \<Rightarrow> l)"
    by (rule all [THEN conjunct2, THEN conjunct2, THEN conjunct1, THEN mp, OF a])
  have c4: "\<not> 1 < length (presented (call stop_at_once example_session None PNone True []))"
  proof
    assume "1 < length (presented (call stop_at_once example_session None PNone True []))"
    with one [THEN conjunct2, THEN conjunct2, THEN conjunct2, rule_format, OF len]
    have "snd (stop_at_once (dict_update [] (kwargs example_session))
             (at_item (stop_at_once (dict_update [] (kwargs example_session)))
                (at_start example_session PNone
                   (case None of None \<Rightarrow> ids_of three_items | Some l \<Rightarrow> l)
                   (None = None \<and> ids_are_view three_items))
                (case None of None \<Rightarrow> ids_of three_items | Some l \<Rightarrow> l) 0)
             ((case None of None \<Rightarrow> ids_of three_items | Some l \<Rightarrow> l) ! 0)) = Active"
      by (simp only: One_nat_def less_Suc0 simp_thms)
    with stop show False by blast
  qed
  from d a c1 c3 c4 show ?thesis by (intro conjI)
qed

subsection \<open>Saving and loading\<close>

text \<open>
  When the state of the annotator pickles, loading what \<open>save\<close> wrote gives an
  annotator whose annotations, that is the tasks and the annotation table, are those of
  the annotator that was saved.
\<close>

lemma save_load_roundtrip:
  assumes "picklable (getstate self)"
  shows "fst (save self filename fs) = None \<and>
    (\<exists>restored. load filename (snd (save self filename fs)) = Inr restored \<and>
       annotations restored = annotations self)"
  using assms by (simp add: load_def save_def setstate_def getstate_def Let_def)

text \<open>
  C3 holds of every session whose state pickles, and the code breaks it for data given
  as a dict: \<open>Data_Dict\<close> keeps the views \<open>data.keys()\<close> and \<open>data.values()\<close>,
  which pickle refuses. The keyed adapter below is what \<open>load_data\<close> builds; saving
  the session with its data raises TypeError and leaves a file that does not load, and
  so does saving, without the data, after a run with \<open>redo=True\<close> over all ids, which
  leaves the view of the keys in \<open>ids\<close>.
\<close>

theorem save_dict_session_raises:
  "load_data (Obj (PDict [(PStr ''x'', PInt 1), (PStr ''y'', PInt 2)])) [] = Inr (Some two_items) \<and>
   fst (save dict_session ''a.pkl'' Map.empty) = Some TypeError \<and>
   load ''a.pkl'' (snd (save dict_session ''a.pkl'' Map.empty)) = Inl (OtherError ''EOFError'') \<and>
   fst (save (session (call answer_all (dict_session\<lparr>save_data := False\<rparr>) None PNone True []))
          ''a.pkl'' Map.empty) = Some TypeError"
proof -
  have "load_data (Obj (PDict [(PStr ''x'', PInt 1), (PStr ''y'', PInt 2)])) [] =
      Inr (Some two_items)"
    by (simp add: load_data_def registry_values two_items_def)
  moreover have "save dict_session ''a.pkl'' Map.empty =
      (Some TypeError, [''a.pkl'' \<mapsto> Truncated])"
    by (simp add: save_def getstate_def picklable_def dict_session_def two_items_def Let_def)
  moreover have "ids_is_view
      (session (call answer_all (dict_session\<lparr>save_data := False\<rparr>) None PNone True []))"
    by (simp add: example_defs call_def get_data_def dict_update_def Let_def)
  then have "fst (save (session (call answer_all (dict_session\<lparr>save_data := False\<rparr>)
                 None PNone True [])) ''a.pkl'' Map.empty) = Some TypeError"
    by (simp add: save_def getstate_def picklable_def Let_def)
  ultimately show ?thesis by (simp add: load_def)
qed

text \<open>
  C4, as the claim states it, fails: \<open>__getstate__\<close> copies the whole \<open>__dict__\<close>,
  and after a run that holds the work list \<open>ids\<close> and the position \<open>i\<close>.
\<close>

theorem snapshot_excludes_cursor_counterexample:
  "st_ids (getstate (session (call answer_all example_session None PNone False []))) =
     Some [PInt 2] \<and>
   st_i (getstate (session (call answer_all example_session None PNone False []))) = Some 0"
  by (simp add: example_defs call_def get_data_def dict_update_def getstate_def Let_def)

text \<open>
  C4, amended. The saved state holds every attribute of the annotator, the work list
  and the position of the last run among them; only \<open>_data\<close> is left out, when
  \<open>save_data\<close> is off. Restoring the state gives the annotator back with the data
  detached in that case and unchanged otherwise. After a call with data attached the
  saved state holds the work list of that call.
\<close>

theorem snapshot_keeps_cursor:
  "st_ids (getstate self) = ids self \<and>
   st_i (getstate self) = i self \<and>
   st_data (getstate self) = (if save_data self then Some (private_data self) else None) \<and>
   setstate (getstate self) =
     self\<lparr>private_data := (if save_data self then private_data self else None)\<rparr> \<and>
   (private_data self \<noteq> None \<longrightarrow>
      (\<exists>w. ids (session (call Interface self ids_arg user_arg redo kw)) = Some w \<and>
           st_ids (getstate (session (call Interface self ids_arg user_arg redo kw))) = Some w))"
proof -
  have "st_ids (getstate a) = ids a" for a :: "'a annotator"
    by (simp add: getstate_def Let_def)
  moreover have "st_i (getstate self) = i self"
    by (simp add: getstate_def Let_def)
  moreover have "st_data (getstate self) =
      (if save_data self then Some (private_data self) else None)"
    by (simp add: getstate_def Let_def)
  moreover have "setstate (getstate self) =
      self\<lparr>private_data := (if save_data self then private_data self else None)\<rparr>"
    by (simp add: getstate_def setstate_def Let_def)
  moreover have "\<exists>w. ids (session (call Interface self ids_arg user_arg redo kw)) = Some w"
    if "private_data self \<noteq> None"
    using that call_ids [of self _ Interface ids_arg user_arg redo kw] by auto
  ultimately show ?thesis by auto
qed

theorem snapshot_keeps_cursor_witness:
  "private_data example_session \<noteq> None \<and>
   (\<exists>w. ids (session (call answer_all example_session None PNone False [])) = Some w \<and>
        st_ids (getstate (session (call answer_all example_session None PNone False []))) =
          Some w) \<and>
   setstate (getstate example_session) =
     example_session\<lparr>private_data :=
       (if save_data example_session then private_data example_session else None)\<rparr>"
proof -
  have d: "private_data example_session \<noteq> None"
    by (simp add: example_defs)
  from snapshot_keeps_cursor [of example_session answer_all None PNone False "[]"] d
  show ?thesis by blast
qed

subsection \<open>Choosing the adapter\<close>

lemma load_data_loop_find:
  "load_data_loop cs d kw =
     (case find (\<lambda>c. isinstance d (kind_of c)) cs of
        None \<Rightarrow> Inr None
      | Some c \<Rightarrow> map_sum id Some (new c d kw))"
  by (induction cs) simp_all

text \<open>
  C5, as the claim states it, fails: the loop of \<open>load_data\<close> does not test the
  tabular class before the sequence class or the mapping class.
\<close>

theorem tabular_checked_first_counterexample:
  "\<not> checked_before Data_DataFrame_cls Data_List_cls (map snd registry) \<and>
   \<not> checked_before Data_DataFrame_cls Data_Dict_cls (map snd registry)"
  by (simp add: registry_values)

text \<open>
  C5, amended. The classes are tested in the order of their registration: sequence,
  mapping, tabular. The first class whose kind the input is an instance of is
  constructed. A DataFrame is an instance of neither the sequence kind nor the mapping
  kind, so on a DataFrame \<open>load_data\<close> returns what the tabular constructor returns.
\<close>

theorem load_data_registration_order:
  "map snd registry = [Data_List_cls, Data_Dict_cls, Data_DataFrame_cls] \<and>
   checked_before Data_List_cls Data_DataFrame_cls (map snd registry) \<and>
   checked_before Data_Dict_cls Data_DataFrame_cls (map snd registry) \<and>
   load_data d kw =
     (case find (\<lambda>c. isinstance d (kind_of c)) (map snd registry) of
        None \<Rightarrow> Inr None
      | Some c \<Rightarrow> map_sum id Some (new c d kw)) \<and>
   \<not> isinstance (Frame df) Sequence \<and>
   \<not> isinstance (Frame df) Mapping \<and>
   load_data (Frame df) kw = map_sum id Some (new Data_DataFrame_cls (Frame df) kw)"
proof -
  have "load_data d kw =
     (case find (\<lambda>c. isinstance d (kind_of c)) (map snd registry) of
        None \<Rightarrow> Inr None
      | Some c \<Rightarrow> map_sum id Some (new c d kw))"
    by (simp only: load_data_def load_data_loop_find)
  moreover have "load_data (Frame df) kw = map_sum id Some (new Data_DataFrame_cls (Frame df) kw)"
    by (simp add: load_data_def registry_values)
  ultimately show ?thesis by (simp add: registry_values)
qed

theorem load_data_registration_order_witness:
  "load_data (Frame news) [(''id_col'', PStr ''news_id'')] =
     map_sum id Some (new Data_DataFrame_cls (Frame news) [(''id_col'', PStr ''news_id'')]) \<and>
   checked_before Data_List_cls Data_DataFrame_cls (map snd registry)"
  using load_data_registration_order [of "Frame news" "[(''id_col'', PStr ''news_id'')]" news]
  by blast

subsection \<open>Unknown ids\<close>

lemma Data_DataFrame_init_ids:
  assumes "Data_DataFrame_init df item_cols id_col = Inr a"
  shows "\<exists>self_data cols. a = Data_DataFrame self_data cols (index self_data)"
  using assms by (auto simp: Data_DataFrame_init_def Let_def split: sum.splits)

text \<open>
  C6, as the claim states it, fails: id 5 is not an id of the data, it is passed to the
  call explicitly, and the call neither fails nor presents it. The annotation table holds
  it, so the filter drops it, and the call never compares an id with the ids of the data.
  The interface of the example would raise on that id.
\<close>

theorem unknown_id_fails_run_counterexample:
  "PInt 5 \<notin> set (ids_of three_items) \<and>
   private_data example_session = Some three_items \<and>
   raised (call strict_lookup example_session (Some [PInt 5]) PNone False []) = None \<and>
   presented (call strict_lookup example_session (Some [PInt 5]) PNone False []) = []"
  by (simp add: example_defs call_def get_data_def dict_update_def Let_def)

text \<open>
  C6, amended. On a tabular adapter whose row labels are numbers or strings, looking up
  a number or a string that is not among its ids raises KeyError (the exception of the
  label lookup; the code defines no exception of its own). A call does not compare the
  ids it is given with the ids of the data: an id of a list of hashable ids is in the
  work list exactly when \<open>redo\<close> is on or the annotation table does not hold it, and
  with an interface that stays active it is presented exactly then.
\<close>

theorem unknown_id_lookup_and_work_list:
  assumes "Data_DataFrame_init df item_cols id_col = Inr a"
    and "list_all plain_label (ids_of a)"
    and "plain_label ident"
    and "ident \<notin> set (ids_of a)"
    and "private_data self = Some d"
    and "list_all hashable l"
    and "x \<in> set l"
  shows "getitem a ident = Inl KeyError \<and>
    (\<exists>w. ids (session (call Interface self (Some l) user_arg redo kw)) = Some w \<and>
         (x \<in> set w) = (redo \<or> x \<notin> set (index (data (annotations self))))) \<and>
    ((\<forall>s y. snd (Interface (dict_update kw (kwargs self)) s y) = Active) \<longrightarrow>
       (x \<in> set (presented (call Interface self (Some l) user_arg redo kw))) =
         (redo \<or> x \<notin> set (index (data (annotations self)))))"
proof -
  obtain self_data cols where a: "a = Data_DataFrame self_data cols (index self_data)"
    using Data_DataFrame_init_ids [OF assms(1)] by blast
  with assms(4) have "ident \<notin> set (index self_data)" by simp
  with assms(3) have "loc self_data ident cols = Inl KeyError"
    by (cases ident) (simp_all add: loc_def)
  with a have "getitem a ident = Inl KeyError" by simp
  moreover have w: "\<exists>w. ids (session (call Interface self (Some l) user_arg redo kw)) = Some w \<and>
         (x \<in> set w) = (redo \<or> x \<notin> set (index (data (annotations self))))"
    using assms(7) call_ids [OF assms(5), of Interface "Some l" user_arg redo kw] by auto
  moreover have "(x \<in> set (presented (call Interface self (Some l) user_arg redo kw))) =
         (redo \<or> x \<notin> set (index (data (annotations self))))"
    if "\<forall>s y. snd (Interface (dict_update kw (kwargs self)) s y) = Active"
    using that assms(7)
    by (simp only: call_with_data [OF assms(5)] loop_all_active) auto
  ultimately show ?thesis by blast
qed

theorem unknown_id_lookup_and_work_list_witness:
  "Data_DataFrame_init news (PStr ''title'') (PStr ''news_id'') =
     Inr (Data_DataFrame \<lparr>columns = [PStr ''title''], index = [PInt 10, PInt 11],
                          cells = [[PStr ''x''], [PStr ''y'']]\<rparr>
            [PStr ''title''] [PInt 10, PInt 11]) \<and>
   list_all plain_label (ids_of (Data_DataFrame
            \<lparr>columns = [PStr ''title''], index = [PInt 10, PInt 11],
             cells = [[PStr ''x''], [PStr ''y'']]\<rparr>
            [PStr ''title''] [PInt 10, PInt 11])) \<and>
   plain_label (PInt 0) \<and>
   PInt 0 \<notin> set (ids_of (Data_DataFrame \<lparr>columns = [PStr ''title''], index = [PInt 10, PInt 11],
                          cells = [[PStr ''x''], [PStr ''y'']]\<rparr>
            [PStr ''title''] [PInt 10, PInt 11])) \<and>
   private_data example_session = Some three_items \<and>
   list_all hashable [PInt 7, PInt 5] \<and>
   PInt 7 \<in> set [PInt 7, PInt 5] \<and>
   getitem (Data_DataFrame \<lparr>columns = [PStr ''title''], index = [PInt 10, PInt 11],
                          cells = [[PStr ''x''], [PStr ''y'']]\<rparr>
            [PStr ''title''] [PInt 10, PInt 11]) (PInt 0) = Inl KeyError \<and>
   (\<exists>w. ids (session (call strict_lookup example_session (Some [PInt 7, PInt 5]) PNone False []))
          = Some w \<and>
        (PInt 7 \<in> set w) =
          (False \<or> PInt 7 \<notin> set (index (data (annotations example_session)))))"
proof -
  have h1: "Data_DataFrame_init news (PStr ''title'') (PStr ''news_id'') =
     Inr (Data_DataFrame \<lparr>columns = [PStr ''title''], index = [PInt 10, PInt 11],
                          cells = [[PStr ''x''], [PStr ''y'']]\<rparr>
            [PStr ''title''] [PInt 10, PInt 11])"
    by (simp add: Data_DataFrame_init_def set_index_def news_def cell_def Let_def)
  have h2: "list_all plain_label (ids_of (Data_DataFrame
            \<lparr>columns = [PStr ''title''], index = [PInt 10, PInt 11],
             cells = [[PStr ''x''], [PStr ''y'']]\<rparr>
            [PStr ''title''] [PInt 10, PInt 11]))"
    by simp
  have h3: "plain_label (PInt 0)"
    by simp
  have h4: "PInt 0 \<notin> set (ids_of (Data_DataFrame
            \<lparr>columns = [PStr ''title''], index = [PInt 10, PInt 11],
             cells = [[PStr ''x''], [PStr ''y'']]\<rparr>
            [PStr ''title''] [PInt 10, PInt 11]))"
    by simp
  have h5: "private_data example_session = Some three_items"
    by (simp add: example_defs)
  have h6: "list_all hashable [PInt 7, PInt 5]"
    by simp
  have h7: "PInt 7 \<in> set [PInt 7, PInt 5]"
    by simp
  from unknown_id_lookup_and_work_list
    [OF h1 h2 h3 h4 h5 h6 h7, of strict_lookup PNone False "[]"]
    h1 h2 h3 h4 h5 h6 h7
  show ?thesis by blast
qed

subsection \<open>No data attached\<close>

text \<open>
  C7, as the claim states it, fails: with no data attached the call still stores a truthy
  \<open>user\<close> argument, so the session is not left unchanged.
\<close>

theorem no_data_call_unchanged_counterexample:
  "private_data (example_session\<lparr>private_data := None\<rparr>) = None \<and>
   session (call answer_all (example_session\<lparr>private_data := None\<rparr>) None (PStr ''bob'') False [])
     \<noteq> example_session\<lparr>private_data := None\<rparr>"
  by (simp add: example_defs call_def get_data_def Let_def)

text \<open>
  C7, amended. With no data attached the call returns without raising and without
  handing any id to the interface; the \<open>data\<close> property prints its notice; the
  session is left as it was, except that a truthy \<open>user\<close> argument has been stored.
\<close>

theorem no_data_call_returns:
  assumes "private_data self = None"
  shows "call Interface self ids_arg user_arg redo kw =
      \<lparr>session = (if truthy user_arg then self\<lparr>user := user_arg\<rparr> else self),
       presented = [], printed = [no_data_message], raised = None\<rparr> \<and>
    session (call Interface self ids_arg user_arg redo kw) =
      self\<lparr>user := user (session (call Interface self ids_arg user_arg redo kw))\<rparr> \<and>
    (\<not> truthy user_arg \<longrightarrow> session (call Interface self ids_arg user_arg redo kw) = self)"
  by (simp add: call_without_data [OF assms])

theorem no_data_call_returns_witness:
  "private_data (example_session\<lparr>private_data := None\<rparr>) = None \<and>
   \<not> truthy PNone \<and>
   raised (call answer_all (example_session\<lparr>private_data := None\<rparr>) (Some [PInt 2]) PNone True [])
     = None \<and>
   session (call answer_all (example_session\<lparr>private_data := None\<rparr>) (Some [PInt 2]) PNone True [])
     = example_session\<lparr>private_data := None\<rparr>"
proof -
  have h: "private_data (example_session\<lparr>private_data := None\<rparr>) = None"
    by simp
  have t: "\<not> truthy PNone"
    by simp
  have "raised (call answer_all (example_session\<lparr>private_data := None\<rparr>) (Some [PInt 2]) PNone True [])
     = None"
    using no_data_call_returns [OF h, of answer_all "Some [PInt 2]" PNone True "[]"] by simp
  with no_data_call_returns [OF h, of answer_all "Some [PInt 2]" PNone True "[]"] h t
  show ?thesis by blast
qed

subsection \<open>The order of the work list\<close>

text \<open>
  C8. With data attached and \<open>redo=False\<close>, the work list is the requested ids without
  those that the annotation table holds, in the order of the requested ids: nothing is
  sorted, and the ids are presented in that order.
\<close>

theorem work_list_keeps_order:
  assumes "private_data self = Some d"
  shows "\<exists>w. ids (session (call Interface self ids_arg user_arg False kw)) = Some w \<and>
      w = filter (\<lambda>x. x \<notin> set (index (data (annotations self))))
            (case ids_arg of None \<Rightarrow> ids_of d | Some l \<Rightarrow> l) \<and>
      subseq w (case ids_arg of None \<Rightarrow> ids_of d | Some l \<Rightarrow> l) \<and>
      prefix (presented (call Interface self ids_arg user_arg False kw)) w"
  using call_ids [OF assms, of Interface ids_arg user_arg False kw]
    call_presented_prefix [OF assms, of Interface ids_arg user_arg False kw]
  by simp

theorem work_list_keeps_order_witness:
  "private_data example_session = Some three_items \<and>
   (\<exists>w. ids (session (call answer_all example_session (Some [PInt 2, PInt 1, PInt 7, PInt 0, PInt 3])
                       PNone False [])) = Some w \<and>
      w = filter (\<lambda>x. x \<notin> set (index (data (annotations example_session))))
            (case Some [PInt 2, PInt 1, PInt 7, PInt 0, PInt 3] of
               None \<Rightarrow> ids_of three_items | Some l \<Rightarrow> l) \<and>
      w = [PInt 2, PInt 7, PInt 3])"
proof -
  have h: "private_data example_session = Some three_items"
    by (simp add: example_defs)
  have "filter (\<lambda>x. x \<notin> set (index (data (annotations example_session))))
            (case Some [PInt 2, PInt 1, PInt 7, PInt 0, PInt 3] of
               None \<Rightarrow> ids_of three_items | Some l \<Rightarrow> l) = [PInt 2, PInt 7, PInt 3]"
    by (simp add: example_defs)
  with work_list_keeps_order
    [OF h, of answer_all "Some [PInt 2, PInt 1, PInt 7, PInt 0, PInt 3]" PNone "[]"] h
  show ?thesis by metis
qed

subsection \<open>The user argument\<close>

text \<open>
  C9. A truthy \<open>user\<close> argument replaces the stored user, with or without data
  attached, and a later call with a falsy argument keeps it; a falsy argument
  (\<open>None\<close> or the empty string) leaves the stored user as it is.
\<close>

theorem user_argument:
  "user (session (call Interface self ids_arg user_arg redo kw)) =
     (if truthy user_arg then user_arg else user self) \<and>
   \<not> truthy PNone \<and> \<not> truthy (PStr '''') \<and>
   user (session (call Interface2
           (session (call Interface self ids_arg user_arg redo kw)) ids_arg2 PNone redo2 kw2)) =
     (if truthy user_arg then user_arg else user self)"
proof -
  have u: "user (session (call f a b c r k)) = (if truthy c then c else user a)"
    for f and a :: "'a annotator" and b c r k
  proof (cases "private_data a")
    case None
    then show ?thesis by (simp add: call_without_data)
  next
    case (Some d)
    then show ?thesis by (simp add: call_with_data loop_user at_start_def)
  qed
  show ?thesis by (simp add: u)
qed

theorem user_argument_witness:
  "truthy (PStr ''bob'') \<and>
   user (session (call answer_all (example_session\<lparr>private_data := None\<rparr>) None (PStr ''bob'')
                    False [])) = PStr ''bob'' \<and>
   user (session (call answer_all (example_session\<lparr>user := PStr ''ann''\<rparr>) None (PStr '''')
                    False [])) = PStr ''ann''"
proof -
  have t: "truthy (PStr ''bob'')" "\<not> truthy (PStr '''')"
    by simp_all
  have "user (example_session\<lparr>user := PStr ''ann''\<rparr>) = PStr ''ann''"
    by simp
  with t
    user_argument [of answer_all "example_session\<lparr>private_data := None\<rparr>" None "PStr ''bob''"
      False "[]"]
    user_argument [of answer_all "example_session\<lparr>user := PStr ''ann''\<rparr>" None "PStr ''''"
      False "[]"]
  show ?thesis by metis
qed

subsection \<open>An input of no registered kind\<close>

text \<open>
  C10. On an input that is an instance of none of the registered kinds, \<open>load_data\<close>
  returns \<open>None\<close> and raises nothing.
\<close>

theorem load_data_unmatched:
  assumes "\<not> isinstance d Sequence" and "\<not> isinstance d Mapping" and "\<not> isinstance d DataFrame"
  shows "load_data d kw = Inr None"
  using assms by (simp add: load_data_def registry_values)

theorem load_data_unmatched_witness:
  "\<not> isinstance (Obj (PInt 3)) Sequence \<and> \<not> isinstance (Obj (PInt 3)) Mapping \<and>
   \<not> isinstance (Obj (PInt 3)) DataFrame \<and>
   load_data (Obj (PInt 3)) [(''id_col'', PStr ''news_id'')] = Inr None"
proof -
  have h: "\<not> isinstance (Obj (PInt 3)) Sequence" "\<not> isinstance (Obj (PInt 3)) Mapping"
    "\<not> isinstance (Obj (PInt 3)) DataFrame"
    by simp_all
  from load_data_unmatched [OF h, of "[(''id_col'', PStr ''news_id'')]"] h
  show ?thesis by blast
qed

end
